theory Spec2Isabelle
  imports Complex_Main
begin

section \<open>Campaign discount engine: data model\<close>

text \<open>
  The embedding follows \<^verbatim>\<open>campaigns/models.py\<close> and \<^verbatim>\<open>campaigns/services.py\<close>.

  \<^item> Python \<^verbatim>\<open>Decimal\<close> amounts are rationals. Decimal arithmetic is exact while its
    results fit the 28 significant digits of the default decimal context, as they do for
    amounts of the declared field widths (at most 12 digits, 2 of them decimal places);
    the model is of such amounts.
  \<^item> A calendar date is its day number (an \<^typ>\<open>int\<close>); adding \<^verbatim>\<open>timedelta(days=n)\<close>
    adds \<open>n\<close>. Every call of \<^verbatim>\<open>date.today()\<close> within one service call is the
    parameter \<open>today\<close>.
  \<^item> A user is its primary key, and a cart holds its two amounts as the
    \<^verbatim>\<open>Decimal\<close> values its constructor made of them.
  \<^item> The two ledger tables are finite maps from their unique keys to their counter.
\<close>

type_synonym date = int

datatype applies_to = CART | DELIVERY

datatype discount_type = PERCENT | FLAT

record campaign =
  pk :: nat
  applies_to :: applies_to
  discount_type :: discount_type
  discount_value :: rat
  max_discount_amount :: "rat option"
  allow_all_customers :: bool
  specific_customers :: "nat set"
  start_date :: date
  end_date :: date
  run_days_limit :: "nat option"
  total_budget_limit :: "rat option"
  max_txn_per_customer_per_day :: nat
  is_active :: bool

record cart =
  customer :: nat
  subtotal :: rat
  delivery :: rat

text \<open>
  \<^verbatim>\<open>CampaignBudget\<close> has one row per campaign (\<^verbatim>\<open>OneToOneField\<close>), holding
  \<^verbatim>\<open>total_discount_given\<close>; \<^verbatim>\<open>CampaignUsageDaily\<close> has one row per
  (campaign, customer, usage date), holding \<^verbatim>\<open>txn_count\<close>.
\<close>

type_synonym usage_key = "nat \<times> nat \<times> date"

record ledger =
  budgets :: "nat \<rightharpoonup> rat"
  usages :: "usage_key \<rightharpoonup> nat"

text \<open>
  The dictionaries returned by the services have optional keys: the key
  \<^verbatim>\<open>reason\<close> is absent from a successful result, and one rejection omits
  \<^verbatim>\<open>discount_amount\<close> and \<^verbatim>\<open>applies_to\<close>. An absent key is \<open>None\<close>.
\<close>

record result =
  applicable :: bool
  reason :: "string option"
  discount_amount :: "rat option"
  res_applies_to :: "applies_to option"

subsection \<open>Python truthiness of optional numbers\<close>

text \<open>
  \<^verbatim>\<open>if x:\<close> on an optional number is false for \<^verbatim>\<open>None\<close> and for zero
  (\<^verbatim>\<open>Decimal("0.00")\<close> and \<^verbatim>\<open>0\<close> are falsy). Where the branch goes on to use
  the number, the definitions below write the same test as a \<^theory_text>\<open>case\<close> with the
  zero test inside.
\<close>

definition truthy :: "'a::zero option \<Rightarrow> bool" where
  "truthy x = (case x of None \<Rightarrow> False | Some v \<Rightarrow> v \<noteq> 0)"

section \<open>Model helpers (models.py)\<close>

text \<open>\<^verbatim>\<open>Campaign.days_exhausted\<close>, lines 94-97.\<close>

definition days_exhausted :: "campaign \<Rightarrow> date \<Rightarrow> bool" where
  "days_exhausted c today =
     (case run_days_limit c of
        None \<Rightarrow> False
      | Some l \<Rightarrow> if l = 0 then False else today > start_date c + (int l - 1))"

text \<open>\<^verbatim>\<open>Campaign.is_within_date_window\<close>, lines 99-101.\<close>

definition is_within_date_window :: "campaign \<Rightarrow> date \<Rightarrow> bool" where
  "is_within_date_window c today = (start_date c \<le> today \<and> today \<le> end_date c)"

text \<open>\<^verbatim>\<open>Campaign.remaining_budget\<close>, lines 103-110: the test is \<^verbatim>\<open>is None\<close> here.\<close>

definition remaining_budget :: "campaign \<Rightarrow> ledger \<Rightarrow> rat option" where
  "remaining_budget c s =
     (case total_budget_limit c of
        None \<Rightarrow> None
      | Some l \<Rightarrow> (case budgets s (pk c) of None \<Rightarrow> Some l | Some g \<Rightarrow> Some (l - g)))"


section \<open>Ledger access\<close>

text \<open>
  \<^verbatim>\<open>objects.get_or_create(...)\<close> returns the row of the key, inserting it with the
  field default (0) when there is none.
\<close>

definition budget_get_or_create :: "nat \<Rightarrow> ledger \<Rightarrow> rat \<times> ledger" where
  "budget_get_or_create k s =
     (case budgets s k of
        Some g \<Rightarrow> (g, s)
      | None \<Rightarrow> (0, s\<lparr>budgets := (budgets s)(k \<mapsto> 0)\<rparr>))"

definition usage_get_or_create :: "usage_key \<Rightarrow> ledger \<Rightarrow> nat \<times> ledger" where
  "usage_get_or_create k s =
     (case usages s k of
        Some n \<Rightarrow> (n, s)
      | None \<Rightarrow> (0, s\<lparr>usages := (usages s)(k \<mapsto> 0)\<rparr>))"

text \<open>The counters as a lazily created row shows them: 0 while the row does not exist.\<close>

definition given_of :: "ledger \<Rightarrow> nat \<Rightarrow> rat" where
  "given_of s k = (case budgets s k of None \<Rightarrow> 0 | Some g \<Rightarrow> g)"

definition txn_count_of :: "ledger \<Rightarrow> usage_key \<Rightarrow> nat" where
  "txn_count_of s k = (case usages s k of None \<Rightarrow> 0 | Some n \<Rightarrow> n)"

section \<open>Services (services.py)\<close>

text \<open>\<^verbatim>\<open>_eligible_customer\<close>, lines 20-24.\<close>

definition eligible_customer :: "campaign \<Rightarrow> nat \<Rightarrow> bool" where
  "eligible_customer c user =
     (if \<not> allow_all_customers c then user \<in> specific_customers c else True)"

text \<open>\<^verbatim>\<open>_budget_remaining\<close>, lines 27-32.\<close>

definition budget_remaining :: "campaign \<Rightarrow> ledger \<Rightarrow> rat option \<times> ledger" where
  "budget_remaining c s =
     (case total_budget_limit c of
        None \<Rightarrow> (None, s)
      | Some l \<Rightarrow>
          if l = 0 then (None, s)
          else let (g, s') = budget_get_or_create (pk c) s in (Some (l - g), s'))"

text \<open>\<^verbatim>\<open>_per_day_txn_left\<close>, lines 35-40.\<close>

definition per_day_txn_left :: "campaign \<Rightarrow> nat \<Rightarrow> date \<Rightarrow> ledger \<Rightarrow> int \<times> ledger" where
  "per_day_txn_left c user today s =
     (let (n, s') = usage_get_or_create (pk c, user, today) s
      in (max 0 (int (max_txn_per_customer_per_day c) - int n), s'))"

text \<open>
  \<^verbatim>\<open>Decimal.quantize(Decimal("0.01"), rounding=ROUND_DOWN)\<close>: two decimal places,
  rounding toward zero.
\<close>

definition quantize_down :: "rat \<Rightarrow> rat" where
  "quantize_down x =
     (if 0 \<le> x then of_int \<lfloor>x * 100\<rfloor> / 100 else of_int \<lceil>x * 100\<rceil> / 100)"

text \<open>\<^verbatim>\<open>_compute_raw_discount\<close>, lines 43-55.\<close>

definition compute_raw_discount :: "campaign \<Rightarrow> rat \<Rightarrow> rat" where
  "compute_raw_discount c amount0 =
     (let amount = max 0 amount0;
          disc = (if discount_type c = PERCENT then (amount * discount_value c) / 100
                  else discount_value c);
          disc = (case max_discount_amount c of
                    None \<Rightarrow> disc
                  | Some m \<Rightarrow> if m = 0 then disc else min disc m)
      in max 0 (quantize_down disc))"

text \<open>The two dictionary shapes built by \<^verbatim>\<open>preview_discount\<close>, lines 96-100 and 102-107.\<close>

definition accepted :: "campaign \<Rightarrow> rat \<Rightarrow> result" where
  "accepted c disc =
     \<lparr>applicable = True, reason = None, discount_amount = Some disc,
      res_applies_to = Some (applies_to c)\<rparr>"

definition rejected :: "campaign \<Rightarrow> string \<Rightarrow> result" where
  "rejected c r =
     \<lparr>applicable = False, reason = Some r, discount_amount = Some 0,
      res_applies_to = Some (applies_to c)\<rparr>"

text \<open>
  \<^verbatim>\<open>preview_discount\<close>, lines 58-107. The variable \<^verbatim>\<open>reason\<close> of the source is
  the optional string \<open>rsn\<close>; \<^verbatim>\<open>reason or "Not applicable."\<close> is the last
  \<^theory_text>\<open>case\<close>. The ledger is threaded through because the two helpers call
  \<^verbatim>\<open>get_or_create\<close>.
\<close>

definition preview_discount :: "campaign \<Rightarrow> cart \<Rightarrow> date \<Rightarrow> ledger \<Rightarrow> result \<times> ledger" where
  "preview_discount c crt today s =
     (if \<not> (is_active c \<and> is_within_date_window c today \<and> \<not> days_exhausted c today)
      then (rejected c ''Inactive or outside schedule.'', s)
      else if \<not> eligible_customer c (customer crt)
      then (rejected c ''Customer not targeted.'', s)
      else
        let (left, s1) = per_day_txn_left c (customer crt) today s in
        if left \<le> 0 then (rejected c ''Daily usage limit reached.'', s1)
        else
          let base = (if applies_to c = CART then subtotal crt else delivery crt) in
          if base \<le> 0 then (rejected c ''Nothing to discount.'', s1)
          else
            let disc = compute_raw_discount c base;
                (remaining, s2) = budget_remaining c s1;
                (rsn, disc) =
                  (case remaining of
                     None \<Rightarrow> (None, disc)
                   | Some r \<Rightarrow> if r \<le> 0 then (Some ''Budget exhausted.'', disc)
                              else (None, min disc r))
            in
              if rsn = None \<and> disc > 0 then (accepted c disc, s2)
              else (rejected c (case rsn of None \<Rightarrow> ''Not applicable.'' | Some r \<Rightarrow> r), s2))"

text \<open>
  \<^verbatim>\<open>redeem_discount\<close>, lines 124-144: the part that runs with the usage row locked.
  It reads the ledger as it is when the lock is granted.
\<close>

definition race_rejected :: result where
  "race_rejected =
     \<lparr>applicable = False, reason = Some ''Race: daily limit reached.'',
      discount_amount = None, res_applies_to = None\<rparr>"

definition redeem_locked :: "campaign \<Rightarrow> cart \<Rightarrow> date \<Rightarrow> rat \<Rightarrow> ledger \<Rightarrow> result \<times> ledger" where
  "redeem_locked c crt today disc s =
     (let k = (pk c, customer crt, today);
          (n, s1) = usage_get_or_create k s
      in
        if n \<ge> max_txn_per_customer_per_day c then (race_rejected, s1)
        else
          let s2 = s1\<lparr>usages := (usages s1)(k \<mapsto> n + 1)\<rparr> in
          if truthy (total_budget_limit c) then
            let (g, s3) = budget_get_or_create (pk c) s2
            in (accepted c disc, s3\<lparr>budgets := (budgets s3)(pk c \<mapsto> g + disc)\<rparr>)
          else (accepted c disc, s2))"

text \<open>
  \<^verbatim>\<open>redeem_discount\<close>, lines 110-144. Between the unlocked preview (line 118) and the
  row lock (line 125) other transactions may commit; \<open>env\<close> is what they do to the
  ledger in that interval. The call itself reads the usage row only at line 125 and the
  budget row only at line 136, both under their locks, so writes that land later than
  line 125 are seen by this call exactly as writes that landed before it.
  \<^verbatim>\<open>prev["discount_amount"]\<close> raises \<^verbatim>\<open>KeyError\<close> when the key is absent; every
  preview result carries the key (lemma \<open>preview_discount_amount\<close> below), and the
  \<open>None\<close> branch stands for that unreachable raise.
\<close>

definition redeem_discount_env ::
  "(ledger \<Rightarrow> ledger) \<Rightarrow> campaign \<Rightarrow> cart \<Rightarrow> date \<Rightarrow> ledger \<Rightarrow> result \<times> ledger" where
  "redeem_discount_env env c crt today s =
     (let (prev, s1) = preview_discount c crt today s in
      if \<not> applicable prev then (prev, s1)
      else
        (case discount_amount prev of
           None \<Rightarrow> (prev, s1)
         | Some disc \<Rightarrow> redeem_locked c crt today disc (env s1)))"

text \<open>A redeem call that no other transaction interleaves with.\<close>

definition redeem_discount :: "campaign \<Rightarrow> cart \<Rightarrow> date \<Rightarrow> ledger \<Rightarrow> result \<times> ledger" where
  "redeem_discount = redeem_discount_env (\<lambda>s. s)"

subsection \<open>Sequences of calls\<close>

datatype call = Preview campaign cart date | Redeem campaign cart date

fun campaign_of :: "call \<Rightarrow> campaign" where
  "campaign_of (Preview c crt today) = c"
| "campaign_of (Redeem c crt today) = c"

fun exec_call :: "call \<Rightarrow> ledger \<Rightarrow> result \<times> ledger" where
  "exec_call (Preview c crt today) s = preview_discount c crt today s"
| "exec_call (Redeem c crt today) s = redeem_discount c crt today s"

fun run :: "ledger \<Rightarrow> call list \<Rightarrow> ledger" where
  "run s [] = s"
| "run s (x # xs) = run (snd (exec_call x s)) xs"

definition empty_ledger :: ledger where
  "empty_ledger = \<lparr>budgets = Map.empty, usages = Map.empty\<rparr>"

section \<open>Specification-side notions\<close>

text \<open>
  What one service call may do to the ledger besides changing a counter: insert rows
  that hold the initial value 0. Every row of \<open>s\<close> is in \<open>s'\<close> with its value, and
  every other row of \<open>s'\<close> holds 0.
\<close>

definition zero_rows_added :: "ledger \<Rightarrow> ledger \<Rightarrow> bool" where
  "zero_rows_added s s' =
     ((\<forall>k. budgets s' k = budgets s k \<or> (budgets s k = None \<and> budgets s' k = Some 0)) \<and>
      (\<forall>k. usages s' k = usages s k \<or> (usages s k = None \<and> usages s' k = Some 0)))"

subsection \<open>The evaluation order as the specification words it\<close>

text \<open>
  The specification lists six checks and their reasons, the first failing one deciding.
  \<open>first_failing\<close> walks such a list; \<open>preview_checks\<close> is the list, each check
  read off the ledger the call starts from; \<open>preview_spec\<close> is the result the
  specification prescribes.
\<close>

fun first_failing :: "(bool \<times> string) list \<Rightarrow> string option" where
  "first_failing [] = None"
| "first_failing ((ok, r) # rest) = (if ok then first_failing rest else Some r)"

definition selected_base :: "campaign \<Rightarrow> cart \<Rightarrow> rat" where
  "selected_base c crt = (if applies_to c = CART then subtotal crt else delivery crt)"

definition capped_discount :: "campaign \<Rightarrow> cart \<Rightarrow> ledger \<Rightarrow> rat" where
  "capped_discount c crt s =
     (case fst (budget_remaining c s) of
        None \<Rightarrow> compute_raw_discount c (selected_base c crt)
      | Some r \<Rightarrow> min (compute_raw_discount c (selected_base c crt)) r)"

definition schedule_ok :: "campaign \<Rightarrow> date \<Rightarrow> bool" where
  "schedule_ok c today =
     (is_active c \<and> is_within_date_window c today \<and> \<not> days_exhausted c today)"

definition daily_ok :: "campaign \<Rightarrow> cart \<Rightarrow> date \<Rightarrow> ledger \<Rightarrow> bool" where
  "daily_ok c crt today s = (0 < fst (per_day_txn_left c (customer crt) today s))"

definition budget_ok :: "campaign \<Rightarrow> ledger \<Rightarrow> bool" where
  "budget_ok c s = (case fst (budget_remaining c s) of None \<Rightarrow> True | Some r \<Rightarrow> 0 < r)"

definition preview_checks :: "campaign \<Rightarrow> cart \<Rightarrow> date \<Rightarrow> ledger \<Rightarrow> (bool \<times> string) list" where
  "preview_checks c crt today s =
     [(schedule_ok c today, ''Inactive or outside schedule.''),
      (eligible_customer c (customer crt), ''Customer not targeted.''),
      (daily_ok c crt today s, ''Daily usage limit reached.''),
      (0 < selected_base c crt, ''Nothing to discount.''),
      (budget_ok c s, ''Budget exhausted.''),
      (0 < capped_discount c crt s, ''Not applicable.'')]"

definition preview_spec :: "campaign \<Rightarrow> cart \<Rightarrow> date \<Rightarrow> ledger \<Rightarrow> result" where
  "preview_spec c crt today s =
     (case first_failing (preview_checks c crt today s) of
        None \<Rightarrow> accepted c (capped_discount c crt s)
      | Some r \<Rightarrow> rejected c r)"

subsection \<open>Invariants over sequences of calls\<close>

text \<open>
  The calls of a sequence may name any campaigns; those that name the primary key of
  \<open>c\<close> carry \<open>c\<close> itself (the campaign is not edited while the sequence runs).
\<close>

definition calls_agree :: "campaign \<Rightarrow> call list \<Rightarrow> bool" where
  "calls_agree c calls = (\<forall>x \<in> set calls. pk (campaign_of x) = pk c \<longrightarrow> campaign_of x = c)"

definition usage_inv :: "campaign \<Rightarrow> ledger \<Rightarrow> bool" where
  "usage_inv c s = (\<forall>u d. txn_count_of s (pk c, u, d) \<le> max_txn_per_customer_per_day c)"

subsection \<open>The remaining-days value as the specification words it\<close>



subsection \<open>Truncation to two decimal places\<close>

text \<open>
  A non-negative \<open>x\<close> truncated toward zero to two places is the largest multiple of
  0.01 that is at most \<open>x\<close>.
\<close>

definition trunc2 :: "rat \<Rightarrow> rat" where
  "trunc2 x = of_int \<lfloor>x * 100\<rfloor> / 100"

definition two_places :: "rat \<Rightarrow> bool" where
  "two_places x = (of_int \<lfloor>x * 100\<rfloor> = x * 100)"

section \<open>Example data\<close>

text \<open>
  The campaign of the repository's unit tests (10 percent of the cart, at most 200.00
  per redemption), with the budget of \<^verbatim>\<open>test_budget_cap_stops_campaign\<close> and two
  redemptions a day; day 0 is its start date.
\<close>

definition camp :: campaign where
  "camp = \<lparr>pk = 1, applies_to = CART, discount_type = PERCENT, discount_value = 10,
     max_discount_amount = Some 200, allow_all_customers = True, specific_customers = {},
     start_date = 0, end_date = 5, run_days_limit = Some 5, total_budget_limit = Some 40,
     max_txn_per_customer_per_day = 2, is_active = True\<rparr>"

definition cart500 :: cart where
  "cart500 = \<lparr>customer = 7, subtotal = 500, delivery = 50\<rparr>"

definition camp_uncapped :: campaign where
  "camp_uncapped = camp\<lparr>total_budget_limit := None\<rparr>"

definition camp_zero_budget :: campaign where
  "camp_zero_budget = camp\<lparr>total_budget_limit := Some 0\<rparr>"




definition camp_flat :: campaign where
  "camp_flat = \<lparr>pk = 2, applies_to = DELIVERY, discount_type = FLAT, discount_value = 50,
     max_discount_amount = None, allow_all_customers = True, specific_customers = {},
     start_date = 0, end_date = 30, run_days_limit = None, total_budget_limit = None,
     max_txn_per_customer_per_day = 3, is_active = True\<rparr>"

definition cart20 :: cart where
  "cart20 = \<lparr>customer = 7, subtotal = 300, delivery = 20\<rparr>"

text \<open>Concurrent redemptions that use up customer 7's two redemptions of day 1.\<close>

definition day_filled :: "ledger \<Rightarrow> ledger" where
  "day_filled s = s\<lparr>usages := (usages s)((1, 7, 1) \<mapsto> 2)\<rparr>"

text \<open>A concurrent redemption by another customer that spends 30.00 of the budget.\<close>

definition budget_spent :: "ledger \<Rightarrow> ledger" where
  "budget_spent s = s\<lparr>budgets := (budgets s)(1 \<mapsto> given_of s 1 + 30)\<rparr>"

section \<open>Ledger access and helper facts\<close>

lemma zero_rows_added_refl: "zero_rows_added s s"
  by (simp add: zero_rows_added_def)

lemma zero_rows_added_trans:
  "zero_rows_added s s1 \<Longrightarrow> zero_rows_added s1 s2 \<Longrightarrow> zero_rows_added s s2"
  unfolding zero_rows_added_def by metis

lemma zero_rows_added_given: "zero_rows_added s s' \<Longrightarrow> given_of s' k = given_of s k"
  unfolding zero_rows_added_def given_of_def
  by (metis option.simps(4,5))

lemma zero_rows_added_txn: "zero_rows_added s s' \<Longrightarrow> txn_count_of s' k = txn_count_of s k"
  unfolding zero_rows_added_def txn_count_of_def
  by (metis option.simps(4,5))

lemma usage_get_or_create_fst: "fst (usage_get_or_create k s) = txn_count_of s k"
  by (simp add: usage_get_or_create_def txn_count_of_def split: option.splits)

lemma usage_get_or_create_zero_rows: "zero_rows_added s (snd (usage_get_or_create k s))"
  by (simp add: usage_get_or_create_def zero_rows_added_def split: option.splits)


lemma budget_get_or_create_fst: "fst (budget_get_or_create k s) = given_of s k"
  by (simp add: budget_get_or_create_def given_of_def split: option.splits)

lemma budget_get_or_create_zero_rows: "zero_rows_added s (snd (budget_get_or_create k s))"
  by (simp add: budget_get_or_create_def zero_rows_added_def split: option.splits)

lemma per_day_txn_left_fst:
  "fst (per_day_txn_left c u today s) =
     max 0 (int (max_txn_per_customer_per_day c) - int (txn_count_of s (pk c, u, today)))"
  by (simp add: per_day_txn_left_def case_prod_beta usage_get_or_create_fst)

lemma per_day_txn_left_snd:
  "snd (per_day_txn_left c u today s) = snd (usage_get_or_create (pk c, u, today) s)"
  by (simp add: per_day_txn_left_def case_prod_beta)

lemma budget_remaining_fst:
  "fst (budget_remaining c s) =
     (case total_budget_limit c of None \<Rightarrow> None
      | Some l \<Rightarrow> if l = 0 then None else Some (l - given_of s (pk c)))"
  by (simp add: budget_remaining_def case_prod_beta budget_get_or_create_fst split: option.splits)

lemma budget_remaining_snd:
  "snd (budget_remaining c s) =
     (if truthy (total_budget_limit c) then snd (budget_get_or_create (pk c) s) else s)"
  by (simp add: budget_remaining_def case_prod_beta truthy_def split: option.splits)

lemma budget_remaining_zero_rows: "zero_rows_added s (snd (budget_remaining c s))"
  by (simp add: budget_remaining_snd budget_get_or_create_zero_rows zero_rows_added_refl)

lemma budget_remaining_after_usage:
  "fst (budget_remaining c (snd (usage_get_or_create k s))) = fst (budget_remaining c s)"
  by (simp add: budget_remaining_fst zero_rows_added_given [OF usage_get_or_create_zero_rows]
      split: option.splits)

lemma preview_refines_spec:
  "fst (preview_discount c crt today s) = preview_spec c crt today s"
  unfolding preview_discount_def preview_spec_def preview_checks_def capped_discount_def
    schedule_ok_def daily_ok_def budget_ok_def
  by (auto simp add: Let_def case_prod_beta per_day_txn_left_snd budget_remaining_after_usage selected_base_def
      split: option.splits)



lemma preview_spec_applicable:
  "applicable (preview_spec c crt today s) = (first_failing (preview_checks c crt today s) = None)"
  by (simp add: preview_spec_def accepted_def rejected_def split: option.splits)

lemma preview_spec_discount:
  "discount_amount (preview_spec c crt today s) =
     Some (if first_failing (preview_checks c crt today s) = None then capped_discount c crt s else 0)"
  by (simp add: preview_spec_def accepted_def rejected_def split: option.splits)

lemma preview_spec_applies_to:
  "res_applies_to (preview_spec c crt today s) = Some (applies_to c)"
  by (simp add: preview_spec_def accepted_def rejected_def split: option.splits)

lemma first_failing_None:
  "first_failing (preview_checks c crt today s) = None \<longleftrightarrow>
     (is_active c \<and> is_within_date_window c today \<and> \<not> days_exhausted c today) \<and>
     eligible_customer c (customer crt) \<and>
     txn_count_of s (pk c, customer crt, today) < max_txn_per_customer_per_day c \<and>
     0 < selected_base c crt \<and>
     (case fst (budget_remaining c s) of None \<Rightarrow> True | Some r \<Rightarrow> 0 < r) \<and>
     0 < capped_discount c crt s"
  by (auto simp add: preview_checks_def schedule_ok_def daily_ok_def budget_ok_def
      per_day_txn_left_fst)

lemma preview_snd:
  "snd (preview_discount c crt today s) =
     (if (is_active c \<and> is_within_date_window c today \<and> \<not> days_exhausted c today) \<and>
         eligible_customer c (customer crt)
      then
        if txn_count_of s (pk c, customer crt, today) < max_txn_per_customer_per_day c \<and>
           0 < selected_base c crt
        then snd (budget_remaining c (snd (usage_get_or_create (pk c, customer crt, today) s)))
        else snd (usage_get_or_create (pk c, customer crt, today) s)
      else s)"
  unfolding preview_discount_def
  by (auto simp add: Let_def case_prod_beta per_day_txn_left_snd per_day_txn_left_fst selected_base_def)

lemma preview_zero_rows: "zero_rows_added s (snd (preview_discount c crt today s))"
  by (auto simp add: preview_snd zero_rows_added_refl usage_get_or_create_zero_rows
      intro: zero_rows_added_trans [OF usage_get_or_create_zero_rows budget_remaining_zero_rows])

lemma redeem_locked_race:
  assumes "max_txn_per_customer_per_day c \<le> txn_count_of s (pk c, customer crt, today)"
  shows "redeem_locked c crt today d s =
           (race_rejected, snd (usage_get_or_create (pk c, customer crt, today) s))"
  using assms
  by (simp add: redeem_locked_def Let_def case_prod_beta usage_get_or_create_fst)

lemma redeem_locked_commit:
  assumes "txn_count_of s (pk c, customer crt, today) < max_txn_per_customer_per_day c"
  shows "fst (redeem_locked c crt today d s) = accepted c d"
    and "usages (snd (redeem_locked c crt today d s)) =
           (usages s)((pk c, customer crt, today) \<mapsto> txn_count_of s (pk c, customer crt, today) + 1)"
    and "budgets (snd (redeem_locked c crt today d s)) =
           (if truthy (total_budget_limit c)
            then (budgets s)(pk c \<mapsto> given_of s (pk c) + d) else budgets s)"
  using assms
  by (auto simp add: redeem_locked_def Let_def case_prod_beta usage_get_or_create_fst
      budget_get_or_create_fst usage_get_or_create_def budget_get_or_create_def given_of_def txn_count_of_def
      split: option.splits)

lemma preview_applicable:
  "applicable (fst (preview_discount c crt today s)) =
     (first_failing (preview_checks c crt today s) = None)"
  by (simp add: preview_refines_spec preview_spec_applicable)

lemma preview_discount_amount:
  "discount_amount (fst (preview_discount c crt today s)) \<noteq> None"
  by (simp add: preview_refines_spec preview_spec_discount)

lemma redeem_env_unfold:
  "redeem_discount_env env c crt today s =
     (if applicable (fst (preview_discount c crt today s))
      then redeem_locked c crt today (capped_discount c crt s)
             (env (snd (preview_discount c crt today s)))
      else preview_discount c crt today s)"
proof (cases "applicable (fst (preview_discount c crt today s))")
  case True
  then have "discount_amount (fst (preview_discount c crt today s)) = Some (capped_discount c crt s)"
    by (simp add: preview_refines_spec preview_spec_discount preview_spec_applicable)
  with True show ?thesis by (simp add: redeem_discount_env_def case_prod_beta)
next
  case False
  then show ?thesis by (simp add: redeem_discount_env_def case_prod_beta)
qed

lemma redeem_env_applicable:
  "applicable (fst (redeem_discount_env env c crt today s)) \<longleftrightarrow>
     applicable (fst (preview_discount c crt today s)) \<and>
     txn_count_of (env (snd (preview_discount c crt today s))) (pk c, customer crt, today)
       < max_txn_per_customer_per_day c"
proof (cases "txn_count_of (env (snd (preview_discount c crt today s))) (pk c, customer crt, today)
       < max_txn_per_customer_per_day c")
  case True
  then show ?thesis
    by (simp add: redeem_env_unfold redeem_locked_commit accepted_def)
next
  case False
  then show ?thesis
    by (simp add: redeem_env_unfold redeem_locked_race race_rejected_def)
qed

lemma redeem_env_commit:
  assumes "applicable (fst (redeem_discount_env env c crt today s))"
  shows "fst (redeem_discount_env env c crt today s) = accepted c (capped_discount c crt s)"
    and "usages (snd (redeem_discount_env env c crt today s)) =
           (usages (env (snd (preview_discount c crt today s))))
             ((pk c, customer crt, today) \<mapsto>
                txn_count_of (env (snd (preview_discount c crt today s)))
                  (pk c, customer crt, today) + 1)"
    and "budgets (snd (redeem_discount_env env c crt today s)) =
           (if truthy (total_budget_limit c)
            then (budgets (env (snd (preview_discount c crt today s))))
                   (pk c \<mapsto> given_of (env (snd (preview_discount c crt today s))) (pk c)
                              + capped_discount c crt s)
            else budgets (env (snd (preview_discount c crt today s))))"
  using assms unfolding redeem_env_applicable
  by (simp_all add: redeem_env_unfold redeem_locked_commit)

lemma redeem_env_rejected:
  assumes "\<not> applicable (fst (redeem_discount_env env c crt today s))"
  shows "(\<not> applicable (fst (preview_discount c crt today s)) \<and>
          redeem_discount_env env c crt today s = preview_discount c crt today s) \<or>
         (applicable (fst (preview_discount c crt today s)) \<and>
          redeem_discount_env env c crt today s =
            (race_rejected, env (snd (preview_discount c crt today s))))"
proof (cases "applicable (fst (preview_discount c crt today s))")
  case False
  then show ?thesis by (simp add: redeem_env_unfold)
next
  case True
  let ?sl = "env (snd (preview_discount c crt today s))"
  let ?k = "(pk c, customer crt, today)"
  from True assms have full: "max_txn_per_customer_per_day c \<le> txn_count_of ?sl ?k"
    by (simp add: redeem_env_applicable)
  have "0 < max_txn_per_customer_per_day c"
    using True by (simp add: preview_applicable first_failing_None)
  with full have "usages ?sl ?k \<noteq> None"
    by (auto simp add: txn_count_of_def split: option.splits)
  then have "snd (usage_get_or_create ?k ?sl) = ?sl"
    by (auto simp add: usage_get_or_create_def split: option.splits)
  with True full show ?thesis
    by (simp add: redeem_env_unfold redeem_locked_race)
qed

lemma preview_keeps_counters:
  "txn_count_of (snd (preview_discount c crt today s)) k = txn_count_of s k"
  "given_of (snd (preview_discount c crt today s)) j = given_of s j"
  by (simp_all add: zero_rows_added_txn zero_rows_added_given preview_zero_rows)

lemma redeem_rejected_keeps_counters:
  assumes "\<not> applicable (fst (redeem_discount c crt today s))"
  shows "txn_count_of (snd (redeem_discount c crt today s)) k = txn_count_of s k"
    and "given_of (snd (redeem_discount c crt today s)) j = given_of s j"
  using redeem_env_rejected [OF assms [unfolded redeem_discount_def]]
  by (auto simp add: redeem_discount_def preview_keeps_counters)

lemma redeem_commit_usage:
  assumes "applicable (fst (redeem_discount c crt today s))"
  shows "txn_count_of s (pk c, customer crt, today) < max_txn_per_customer_per_day c"
    and "txn_count_of (snd (redeem_discount c crt today s)) k =
           (if k = (pk c, customer crt, today) then txn_count_of s k + 1 else txn_count_of s k)"
proof -
  from assms show "txn_count_of s (pk c, customer crt, today) < max_txn_per_customer_per_day c"
    by (simp add: redeem_discount_def redeem_env_applicable preview_keeps_counters)
  have "usages (snd (redeem_discount c crt today s)) =
          (usages (snd (preview_discount c crt today s)))
            ((pk c, customer crt, today) \<mapsto> txn_count_of s (pk c, customer crt, today) + 1)"
    using redeem_env_commit(2) [OF assms [unfolded redeem_discount_def]]
    by (simp add: redeem_discount_def preview_keeps_counters)
  then show "txn_count_of (snd (redeem_discount c crt today s)) k =
           (if k = (pk c, customer crt, today) then txn_count_of s k + 1 else txn_count_of s k)"
    using preview_keeps_counters(1) [of c crt today s k]
    by (simp add: txn_count_of_def)
qed

text \<open>With no other transaction in between, the re-check under the lock never fails.\<close>

lemma redeem_sequential_commits:
  "applicable (fst (redeem_discount c crt today s)) =
     applicable (fst (preview_discount c crt today s))"
  by (auto simp add: redeem_discount_def redeem_env_applicable preview_keeps_counters
      preview_applicable first_failing_None)

lemma exec_call_usage_inv:
  assumes "pk (campaign_of x) = pk c \<longrightarrow> campaign_of x = c" and "usage_inv c s"
  shows "usage_inv c (snd (exec_call x s))"
proof (cases x)
  case (Preview c' crt today)
  with assms(2) show ?thesis by (simp add: usage_inv_def preview_keeps_counters)
next
  case (Redeem c' crt today)
  show ?thesis
  proof (cases "applicable (fst (redeem_discount c' crt today s))")
    case False
    with assms(2) Redeem show ?thesis
      by (simp add: usage_inv_def redeem_rejected_keeps_counters)
  next
    case True
    show ?thesis
      unfolding usage_inv_def
    proof (intro allI)
      fix u d
      show "txn_count_of (snd (exec_call x s)) (pk c, u, d) \<le> max_txn_per_customer_per_day c"
      proof (cases "(pk c, u, d) = (pk c', customer crt, today)")
        case False
        with assms(2) Redeem True show ?thesis
          by (auto simp add: redeem_commit_usage(2) usage_inv_def)
      next
        case same: True
        then have "c' = c" using assms(1) Redeem by simp
        with same Redeem True redeem_commit_usage(1) [OF True] show ?thesis
          by (simp add: redeem_commit_usage(2))
      qed
    qed
  qed
qed

lemma run_usage_inv:
  "calls_agree c calls \<Longrightarrow> usage_inv c s \<Longrightarrow> usage_inv c (run s calls)"
proof (induction calls arbitrary: s)
  case Nil
  then show ?case by simp
next
  case (Cons x xs)
  from Cons.prems(1) have x: "pk (campaign_of x) = pk c \<longrightarrow> campaign_of x = c"
    and xs: "calls_agree c xs"
    by (simp_all add: calls_agree_def)
  from Cons.IH [OF xs exec_call_usage_inv [OF x Cons.prems(2)]] show ?case by simp
qed






subsection \<open>Truncation\<close>



lemma trunc2_nonneg: "0 \<le> x \<Longrightarrow> 0 \<le> trunc2 x"
  by (simp add: trunc2_def)



lemma quantize_down_two_places: "two_places m \<Longrightarrow> quantize_down m = m"
proof -
  assume tp: "two_places m"
  then have f: "of_int \<lfloor>m * 100\<rfloor> = m * 100" by (simp add: two_places_def)
  then have "\<lceil>m * 100\<rceil> = \<lfloor>m * 100\<rfloor>" by (metis ceiling_of_int)
  with f show ?thesis by (simp add: quantize_down_def)
qed



text \<open>The definitions a concrete run unfolds.\<close>

lemmas eval_defs =
  preview_discount_def redeem_discount_def redeem_discount_env_def redeem_locked_def
  is_within_date_window_def days_exhausted_def eligible_customer_def per_day_txn_left_def
  usage_get_or_create_def budget_get_or_create_def budget_remaining_def compute_raw_discount_def
  quantize_down_def accepted_def rejected_def race_rejected_def truthy_def Let_def
  given_of_def txn_count_of_def empty_ledger_def

section \<open>The claims\<close>




text \<open>
  The model's own \<^verbatim>\<open>remaining_budget\<close> property tests \<^verbatim>\<open>is None\<close> and shows such
  a campaign with 0.00 remaining, where the services see no limit.
\<close>

lemma zero_limit_two_readings:
  "remaining_budget camp_zero_budget empty_ledger = Some 0 \<and>
   fst (budget_remaining camp_zero_budget empty_ledger) = None"
  by (simp add: remaining_budget_def budget_remaining_def camp_zero_budget_def camp_def
      empty_ledger_def)

text \<open>
  The bound of C1 is one of calls that do not interleave. When another redemption
  commits 30.00 between this call's preview and its lock, the call still adds the 40.00
  it previewed, and the ledger reads 70.00 against a limit of 40.00.
\<close>

lemma interleaved_redeem_overruns_budget:
  "total_budget_limit camp = Some 40 \<and>
   given_of (budget_spent (snd (preview_discount camp cart500 1 empty_ledger))) 1 = 30 \<and>
   applicable (fst (redeem_discount_env budget_spent camp cart500 1 empty_ledger)) \<and>
   discount_amount (fst (redeem_discount_env budget_spent camp cart500 1 empty_ledger)) = Some 40 \<and>
   given_of (snd (redeem_discount_env budget_spent camp cart500 1 empty_ledger)) 1 = 70"
  by (simp add: camp_def cart500_def budget_spent_def eval_defs)

text \<open>
  Claim C2. For every campaign with \<open>max_txn_per_customer_per_day = N\<close>, the
  \<open>txn_count\<close> of every (campaign, customer, date) row stays at most \<open>N\<close> through
  every sequence of calls; a redeem that finds \<open>txn_count \<ge> N\<close>, at its preview or
  under the row lock, is rejected without incrementing; a successful redeem increments
  the \<open>txn_count\<close> of its own row by exactly 1 and no other.
\<close>

theorem daily_cap_invariant:
  "(calls_agree c calls \<longrightarrow> usage_inv c s \<longrightarrow> usage_inv c (run s calls)) \<and>
   (max_txn_per_customer_per_day c \<le> txn_count_of s (pk c, customer crt, today) \<longrightarrow>
      \<not> applicable (fst (redeem_discount c crt today s)) \<and>
      (\<forall>k. txn_count_of (snd (redeem_discount c crt today s)) k = txn_count_of s k)) \<and>
   (applicable (fst (redeem_discount c crt today s)) \<longrightarrow>
      txn_count_of (snd (redeem_discount c crt today s)) (pk c, customer crt, today) =
        txn_count_of s (pk c, customer crt, today) + 1 \<and>
      txn_count_of (snd (redeem_discount c crt today s)) (pk c, customer crt, today)
        \<le> max_txn_per_customer_per_day c \<and>
      (\<forall>k. k \<noteq> (pk c, customer crt, today) \<longrightarrow>
         txn_count_of (snd (redeem_discount c crt today s)) k = txn_count_of s k)) \<and>
   (applicable (fst (preview_discount c crt today s)) \<and>
    max_txn_per_customer_per_day c \<le>
      txn_count_of (env (snd (preview_discount c crt today s))) (pk c, customer crt, today) \<longrightarrow>
      \<not> applicable (fst (redeem_discount_env env c crt today s)) \<and>
      snd (redeem_discount_env env c crt today s) = env (snd (preview_discount c crt today s))) \<and>
   (applicable (fst (redeem_discount_env env c crt today s)) \<longrightarrow>
      txn_count_of (snd (redeem_discount_env env c crt today s)) (pk c, customer crt, today) =
        txn_count_of (env (snd (preview_discount c crt today s))) (pk c, customer crt, today) + 1 \<and>
      txn_count_of (snd (redeem_discount_env env c crt today s)) (pk c, customer crt, today)
        \<le> max_txn_per_customer_per_day c \<and>
      (\<forall>k. k \<noteq> (pk c, customer crt, today) \<longrightarrow>
         usages (snd (redeem_discount_env env c crt today s)) k =
           usages (env (snd (preview_discount c crt today s))) k))"
proof (intro conjI impI)
  assume "calls_agree c calls" "usage_inv c s"
  then show "usage_inv c (run s calls)" by (rule run_usage_inv)
next
  assume full: "max_txn_per_customer_per_day c \<le> txn_count_of s (pk c, customer crt, today)"
  then show rej: "\<not> applicable (fst (redeem_discount c crt today s))"
    using redeem_commit_usage(1) [of c crt today s] by auto
  then show "\<forall>k. txn_count_of (snd (redeem_discount c crt today s)) k = txn_count_of s k"
    by (simp add: redeem_rejected_keeps_counters)
next
  assume app: "applicable (fst (redeem_discount c crt today s))"
  then show "txn_count_of (snd (redeem_discount c crt today s)) (pk c, customer crt, today) =
        txn_count_of s (pk c, customer crt, today) + 1"
    by (simp add: redeem_commit_usage(2))
  from app show "txn_count_of (snd (redeem_discount c crt today s)) (pk c, customer crt, today)
        \<le> max_txn_per_customer_per_day c"
    using redeem_commit_usage(1) [OF app] by (simp add: redeem_commit_usage(2))
  from app show "\<forall>k. k \<noteq> (pk c, customer crt, today) \<longrightarrow>
         txn_count_of (snd (redeem_discount c crt today s)) k = txn_count_of s k"
    by (simp add: redeem_commit_usage(2))
next
  assume a: "applicable (fst (preview_discount c crt today s)) \<and>
    max_txn_per_customer_per_day c \<le>
      txn_count_of (env (snd (preview_discount c crt today s))) (pk c, customer crt, today)"
  then show rej: "\<not> applicable (fst (redeem_discount_env env c crt today s))"
    by (simp add: redeem_env_applicable)
  from redeem_env_rejected [OF rej] a
  show "snd (redeem_discount_env env c crt today s) = env (snd (preview_discount c crt today s))"
    by auto
next
  assume app: "applicable (fst (redeem_discount_env env c crt today s))"
  then have lt: "txn_count_of (env (snd (preview_discount c crt today s))) (pk c, customer crt, today)
       < max_txn_per_customer_per_day c"
    by (simp add: redeem_env_applicable)
  show "txn_count_of (snd (redeem_discount_env env c crt today s)) (pk c, customer crt, today) =
        txn_count_of (env (snd (preview_discount c crt today s))) (pk c, customer crt, today) + 1"
    by (simp add: txn_count_of_def [of "snd (redeem_discount_env env c crt today s)"]
        redeem_env_commit(2) [OF app])
  with lt show "txn_count_of (snd (redeem_discount_env env c crt today s)) (pk c, customer crt, today)
        \<le> max_txn_per_customer_per_day c"
    by simp
  show "\<forall>k. k \<noteq> (pk c, customer crt, today) \<longrightarrow>
         usages (snd (redeem_discount_env env c crt today s)) k =
           usages (env (snd (preview_discount c crt today s))) k"
    by (simp add: redeem_env_commit(2) [OF app])
qed

theorem daily_cap_invariant_witness:
  "usage_inv camp_uncapped
     (run empty_ledger [Redeem camp_uncapped cart500 1, Redeem camp_uncapped cart500 1,
                        Redeem camp_uncapped cart500 1]) \<and>
   applicable (fst (redeem_discount camp_uncapped cart500 1 empty_ledger)) \<and>
   txn_count_of (snd (redeem_discount camp_uncapped cart500 1 empty_ledger)) (1, 7, 1) = 1 \<and>
   \<not> applicable (fst (redeem_discount_env day_filled camp_uncapped cart500 1 empty_ledger)) \<and>
   txn_count_of
     (run empty_ledger [Redeem camp_uncapped cart500 1, Redeem camp_uncapped cart500 1,
                        Redeem camp_uncapped cart500 1]) (1, 7, 1) = 2"
proof -
  have three: "txn_count_of
     (run empty_ledger [Redeem camp_uncapped cart500 1, Redeem camp_uncapped cart500 1,
                        Redeem camp_uncapped cart500 1]) (1, 7, 1) = 2"
    by (simp add: camp_uncapped_def camp_def cart500_def eval_defs)
  have inv0: "usage_inv camp_uncapped empty_ledger"
    by (simp add: usage_inv_def txn_count_of_def empty_ledger_def)
  have agree: "calls_agree camp_uncapped [Redeem camp_uncapped cart500 1,
      Redeem camp_uncapped cart500 1, Redeem camp_uncapped cart500 1]"
    by (simp add: calls_agree_def)
  have app: "applicable (fst (redeem_discount camp_uncapped cart500 1 empty_ledger))"
    by (simp add: camp_uncapped_def camp_def cart500_def eval_defs)
  have prev: "applicable (fst (preview_discount camp_uncapped cart500 1 empty_ledger))"
    by (simp add: camp_uncapped_def camp_def cart500_def eval_defs)
  have full: "max_txn_per_customer_per_day camp_uncapped \<le>
      txn_count_of (day_filled (snd (preview_discount camp_uncapped cart500 1 empty_ledger)))
        (pk camp_uncapped, customer cart500, 1)"
    by (simp add: camp_uncapped_def camp_def cart500_def day_filled_def txn_count_of_def)
  have zero: "txn_count_of empty_ledger (pk camp_uncapped, customer cart500, 1) = 0"
    by (simp add: txn_count_of_def empty_ledger_def)
  show ?thesis
    using daily_cap_invariant [of camp_uncapped "[Redeem camp_uncapped cart500 1,
        Redeem camp_uncapped cart500 1, Redeem camp_uncapped cart500 1]" empty_ledger
        cart500 1 day_filled] inv0 agree app prev full zero three
    by (simp add: camp_uncapped_def camp_def cart500_def)
qed

text \<open>
  Claim C3 does not hold of the code: a preview of a campaign on an empty ledger
  inserts the usage row of (campaign, customer, today) and, for a budget-capped
  campaign, the budget row, through \<^verbatim>\<open>get_or_create\<close>.
\<close>

theorem preview_inserts_rows:
  "usages empty_ledger (1, 7, 1) = None \<and> budgets empty_ledger 1 = None \<and>
   applicable (fst (preview_discount camp cart500 1 empty_ledger)) \<and>
   usages (snd (preview_discount camp cart500 1 empty_ledger)) (1, 7, 1) = Some 0 \<and>
   budgets (snd (preview_discount camp cart500 1 empty_ledger)) 1 = Some 0 \<and>
   snd (preview_discount camp cart500 1 empty_ledger) \<noteq> empty_ledger"
  by (auto simp add: camp_def cart500_def eval_defs dest: arg_cong [where f = "\<lambda>s. budgets s 1"])






text \<open>
  Claim C6. A redeem call that ends rejected, at the revalidation before the lock or at
  the re-check under it, changes no counter: the only writes of the call are the rows
  its preview inserts with value 0, so every \<open>txn_count\<close> and every
  \<open>total_discount_given\<close> reads as before; after a rejection under the lock the
  ledger is the one the call found there. The reason of the rejection under the lock
  differs from the ordinary daily-limit reason.
\<close>

theorem rejected_redeem_mutates_nothing:
  assumes "redeem_discount_env env c crt today s = (r, s')" and "\<not> applicable r"
  shows "zero_rows_added s (snd (preview_discount c crt today s)) \<and>
         (\<forall>k. txn_count_of (snd (preview_discount c crt today s)) k = txn_count_of s k) \<and>
         (\<forall>j. given_of (snd (preview_discount c crt today s)) j = given_of s j) \<and>
         ((\<not> applicable (fst (preview_discount c crt today s)) \<and>
           r = fst (preview_discount c crt today s) \<and>
           s' = snd (preview_discount c crt today s)) \<or>
          (applicable (fst (preview_discount c crt today s)) \<and>
           r = race_rejected \<and>
           s' = env (snd (preview_discount c crt today s)))) \<and>
         reason race_rejected = Some ''Race: daily limit reached.'' \<and>
         reason race_rejected \<noteq> reason (rejected c ''Daily usage limit reached.'')"
proof -
  from assms have "\<not> applicable (fst (redeem_discount_env env c crt today s))" by simp
  from redeem_env_rejected [OF this] assms(1) [symmetric]
  have "(\<not> applicable (fst (preview_discount c crt today s)) \<and>
           r = fst (preview_discount c crt today s) \<and>
           s' = snd (preview_discount c crt today s)) \<or>
          (applicable (fst (preview_discount c crt today s)) \<and>
           r = race_rejected \<and>
           s' = env (snd (preview_discount c crt today s)))"
    by (auto simp add: prod_eq_iff)
  then show ?thesis
    using preview_zero_rows [of s c crt today]
    by (simp add: zero_rows_added_txn zero_rows_added_given race_rejected_def rejected_def)
qed

theorem rejected_redeem_mutates_nothing_witness:
  "\<not> applicable (fst (redeem_discount_env day_filled camp cart500 1 empty_ledger)) \<and>
   fst (redeem_discount_env day_filled camp cart500 1 empty_ledger) = race_rejected \<and>
   snd (redeem_discount_env day_filled camp cart500 1 empty_ledger) =
     day_filled (snd (preview_discount camp cart500 1 empty_ledger)) \<and>
   zero_rows_added empty_ledger (snd (preview_discount camp cart500 1 empty_ledger))"
proof -
  have rej: "\<not> applicable (fst (redeem_discount_env day_filled camp cart500 1 empty_ledger))"
    by (simp add: camp_def cart500_def day_filled_def eval_defs)
  have app: "applicable (fst (preview_discount camp cart500 1 empty_ledger))"
    by (simp add: camp_def cart500_def eval_defs)
  show ?thesis
    using rejected_redeem_mutates_nothing [OF prod.collapse [symmetric] rej] rej app by simp
qed







text \<open>
  Claim C9. Whenever redeem is rejected at the re-check under the row lock (the usage
  row read there already holds \<open>max_txn_per_customer_per_day\<close> redemptions), the
  result has only the applicable flag and the reason; every other result of preview and
  of redeem carries \<open>discount_amount\<close> and \<open>applies_to\<close>.
\<close>

theorem race_rejection_omits_fields:
  "discount_amount (fst (preview_discount c crt today s)) \<noteq> None \<and>
   res_applies_to (fst (preview_discount c crt today s)) \<noteq> None \<and>
   (if applicable (fst (preview_discount c crt today s)) \<and>
       max_txn_per_customer_per_day c \<le>
         txn_count_of (env (snd (preview_discount c crt today s))) (pk c, customer crt, today)
    then fst (redeem_discount_env env c crt today s) =
           \<lparr>applicable = False, reason = Some ''Race: daily limit reached.'',
            discount_amount = None, res_applies_to = None\<rparr>
    else discount_amount (fst (redeem_discount_env env c crt today s)) \<noteq> None \<and>
         res_applies_to (fst (redeem_discount_env env c crt today s)) \<noteq> None)"
proof -
  let ?prev = "preview_discount c crt today s"
  let ?k = "(pk c, customer crt, today)"
  have p1: "discount_amount (fst ?prev) \<noteq> None" "res_applies_to (fst ?prev) \<noteq> None"
    by (simp_all add: preview_refines_spec preview_spec_discount preview_spec_applies_to)
  then obtain d where d: "discount_amount (fst ?prev) = Some d" by auto
  show ?thesis
  proof (cases "applicable (fst ?prev)")
    case False
    then have "redeem_discount_env env c crt today s = ?prev"
      by (simp add: redeem_discount_env_def case_prod_beta)
    with False p1 show ?thesis by simp
  next
    case True
    then have r: "redeem_discount_env env c crt today s = redeem_locked c crt today d (env (snd ?prev))"
      using d by (simp add: redeem_discount_env_def case_prod_beta)
    show ?thesis
    proof (cases "max_txn_per_customer_per_day c \<le> txn_count_of (env (snd ?prev)) ?k")
      case True
      with \<open>applicable (fst ?prev)\<close> p1 r show ?thesis
        by (simp add: redeem_locked_race race_rejected_def)
    next
      case False
      then have "fst (redeem_locked c crt today d (env (snd ?prev))) = accepted c d"
        by (simp add: redeem_locked_commit)
      with False p1 r show ?thesis by (simp add: accepted_def)
    qed
  qed
qed

theorem race_rejection_omits_fields_witness:
  "applicable (fst (preview_discount camp cart500 1 empty_ledger)) \<and>
   fst (redeem_discount_env day_filled camp cart500 1 empty_ledger) =
     \<lparr>applicable = False, reason = Some ''Race: daily limit reached.'',
      discount_amount = None, res_applies_to = None\<rparr>"
  using race_rejection_omits_fields [of camp cart500 1 empty_ledger day_filled]
  by (simp add: camp_def cart500_def day_filled_def eval_defs)

text \<open>
  Claim C10. The discount returned can exceed the base it applies to: for a FLAT
  campaign with \<open>discount_value > base > 0\<close> (an amount of two decimal places), no
  \<open>max_discount_amount\<close> and no budget limit, which passes the schedule, targeting and
  daily checks, preview returns applicable with \<open>discount_amount = discount_value\<close>,
  more than the selected base.
\<close>

theorem flat_discount_exceeds_base:
  assumes "discount_type c = FLAT"
    and "0 < selected_base c crt" and "selected_base c crt < discount_value c"
    and "max_discount_amount c = None" and "total_budget_limit c = None"
    and "two_places (discount_value c)"
    and "schedule_ok c today" and "eligible_customer c (customer crt)"
    and "txn_count_of s (pk c, customer crt, today) < max_txn_per_customer_per_day c"
  shows "applicable (fst (preview_discount c crt today s)) \<and>
         discount_amount (fst (preview_discount c crt today s)) = Some (discount_value c) \<and>
         selected_base c crt < discount_value c"
proof -
  from assms(2,3) have v: "0 < discount_value c" by simp
  with assms(1,4,6) have raw: "compute_raw_discount c (selected_base c crt) = discount_value c"
    by (simp add: compute_raw_discount_def Let_def quantize_down_two_places)
  with assms(5) have cd: "capped_discount c crt s = discount_value c"
    by (simp add: capped_discount_def budget_remaining_fst)
  have bo: "budget_ok c s" using assms(5) by (simp add: budget_ok_def budget_remaining_fst)
  have "first_failing (preview_checks c crt today s) = None"
    using assms(2,7,8,9) v cd bo
    by (simp add: preview_checks_def daily_ok_def per_day_txn_left_fst)
  with cd assms(3) show ?thesis
    by (simp add: preview_refines_spec preview_spec_applicable preview_spec_discount)
qed

theorem flat_discount_exceeds_base_witness:
  "applicable (fst (preview_discount camp_flat cart20 1 empty_ledger)) \<and>
   discount_amount (fst (preview_discount camp_flat cart20 1 empty_ledger)) = Some 50 \<and>
   selected_base camp_flat cart20 = 20 \<and>
   res_applies_to (fst (preview_discount camp_flat cart20 1 empty_ledger)) = Some DELIVERY"
proof -
  have h: "discount_type camp_flat = FLAT" "0 < selected_base camp_flat cart20"
    "selected_base camp_flat cart20 < discount_value camp_flat"
    "max_discount_amount camp_flat = None" "total_budget_limit camp_flat = None"
    "two_places (discount_value camp_flat)"
    "schedule_ok camp_flat 1" "eligible_customer camp_flat (customer cart20)"
    "txn_count_of empty_ledger (pk camp_flat, customer cart20, 1)
       < max_txn_per_customer_per_day camp_flat"
    by (simp_all add: camp_flat_def cart20_def selected_base_def two_places_def schedule_ok_def
        eval_defs)
  from flat_discount_exceeds_base [OF h]
  show ?thesis
    by (simp add: camp_flat_def cart20_def selected_base_def preview_refines_spec
        preview_spec_applies_to)
qed

end
